theory Spec2Isabelle
  imports Main "HOL-Library.Word" "HOL-Library.Monad_Syntax"
begin

unbundle bit_operations_syntax

section \<open>Gesture handling of the FTS521 touch controller (ftsGesture.c)\<close>

text \<open>
  A shallow embedding of \<^verbatim>\<open>drivers/input/touchscreen/fts521/fts_lib/ftsGesture.c\<close>.
  The file keeps its state in globals; here the globals are the fields of a record that
  every function receives and returns. A C \<^verbatim>\<open>int\<close> is an \<open>int\<close>: no arithmetic
  of the file can leave the 32-bit range (indices are bounded by array sizes, the read
  length by 4 * 255), and \<open>OR\<close> on \<open>int\<close> is the two's complement bitwise or of C.
  A \<^verbatim>\<open>u8\<close> is an \<open>8 word\<close>, a \<^verbatim>\<open>u16\<close> a \<open>16 word\<close>. Logging and the
  mutex do nothing to the values computed and are left out: the model is sequential.
\<close>

type_synonym u8 = "8 word"
type_synonym u16 = "16 word"

subsection \<open>Constants of the headers\<close>

text \<open>
  The macros come from ftsSoftware.h, ftsError.h and ftsGesture.h, which are not part of
  the source under verification. They are taken as parameters: every function of the model
  receives the record below, and every theorem holds for all values of its fields, under
  the hypotheses it states. The two array dimensions are natural numbers, as the
  dimension of a C array is; the other macros are plain \<^verbatim>\<open>int\<close> constants.
\<close>

record fts_config =
  GESTURE_MASK_SIZE :: nat
  GESTURE_MAX_COORDS_PAIRS_REPORT :: nat
  FEAT_ENABLE :: int
  FEAT_DISABLE :: int
  OK :: int
  ERROR_OP_NOT_ALLOW :: int
  ERROR_DISABLE_INTER :: int
  ERROR_ENABLE_INTER :: int
  EVT_ID_USER_REPORT :: int
  EVT_TYPE_USER_GESTURE :: int

subsection \<open>Collaborators and the record of their calls\<close>

text \<open>
  \<^verbatim>\<open>fts_disableInterrupt\<close>, \<^verbatim>\<open>fts_enableInterrupt\<close>, \<^verbatim>\<open>setFeatures\<close>,
  \<^verbatim>\<open>setScanMode\<close> and \<^verbatim>\<open>fts_writeReadU8UX\<close> are defined elsewhere in the driver.
  Each call is appended to a history kept in the state, and what a collaborator returns
  is an arbitrary function of the history before the call and of the arguments that vary.
  A framebuffer read also delivers bytes: byte \<open>k\<close> written into the caller's buffer.
\<close>

datatype call =
    Call_fts_disableInterrupt
  | Call_fts_enableInterrupt
  | Call_setFeatures "u8 list"
  | Call_setScanMode
  | Call_fts_writeReadU8UX int int

record fts_env =
  fts_disableInterrupt :: "call list \<Rightarrow> int"
  fts_enableInterrupt :: "call list \<Rightarrow> int"
  setFeatures :: "call list \<Rightarrow> u8 list \<Rightarrow> int"
  setScanMode :: "call list \<Rightarrow> int"
  fts_writeReadU8UX :: "call list \<Rightarrow> int \<Rightarrow> int \<Rightarrow> int \<times> (nat \<Rightarrow> u8)"

subsection \<open>The globals\<close>

record gesture_state =
  gesture_mask :: "u8 list"
  gesture_coordinates_x :: "u16 list"
  gesture_coordinates_y :: "u16 list"
  gesture_coords_reported :: int
  refreshGestureMask :: u8
  calls :: "call list"

text \<open>The arrays have the dimensions of their declarations.\<close>

definition wf_state :: "fts_config \<Rightarrow> gesture_state \<Rightarrow> bool" where
  "wf_state c s \<longleftrightarrow>
     length (gesture_mask s) = GESTURE_MASK_SIZE c \<and>
     length (gesture_coordinates_x s) = GESTURE_MAX_COORDS_PAIRS_REPORT c \<and>
     length (gesture_coordinates_y s) = GESTURE_MAX_COORDS_PAIRS_REPORT c"

text \<open>The state after static initialisation.\<close>

definition init_state :: "fts_config \<Rightarrow> gesture_state" where
  "init_state c =
     \<lparr> gesture_mask = replicate (GESTURE_MASK_SIZE c) 0,
       gesture_coordinates_x = replicate (GESTURE_MAX_COORDS_PAIRS_REPORT c) 0,
       gesture_coordinates_y = replicate (GESTURE_MAX_COORDS_PAIRS_REPORT c) 0,
       gesture_coords_reported = ERROR_OP_NOT_ALLOW c,
       refreshGestureMask = 0,
       calls = [] \<rparr>"

subsection \<open>Array accesses\<close>

text \<open>
  C does not define an access outside an array, nor the value of a byte that was never
  written. Every function of the model returns an \<open>option\<close>, and \<open>None\<close> stands for
  an execution that makes such an access: \<open>rd\<close> and \<open>wr\<close> are the only ways the model
  indexes an array.
\<close>

definition rd :: "'a list \<Rightarrow> int \<Rightarrow> 'a option" where
  "rd xs i = (if 0 \<le> i \<and> i < int (length xs) then Some (xs ! nat i) else None)"

definition wr :: "'a list \<Rightarrow> int \<Rightarrow> 'a \<Rightarrow> 'a list option" where
  "wr xs i v = (if 0 \<le> i \<and> i < int (length xs) then Some (xs[nat i := v]) else None)"

subsection \<open>updateGestureMask\<close>

text \<open>
  The loop \<^verbatim>\<open>for (i = 0; i < size; i++) gesture_mask[i] = gesture_mask[i] | mask[i];\<close>
  of \<^verbatim>\<open>updateGestureMask\<close> and \<^verbatim>\<open>enableGesture\<close>, from index \<open>i\<close> on.
\<close>

function mask_or_loop :: "u8 list \<Rightarrow> int \<Rightarrow> int \<Rightarrow> u8 list \<Rightarrow> u8 list option" where
  "mask_or_loop msk sz i gm =
     (if i < sz then
        do {
          a \<leftarrow> rd gm i;
          b \<leftarrow> rd msk i;
          gm' \<leftarrow> wr gm i (a OR b);
          mask_or_loop msk sz (i + 1) gm'
        }
      else Some gm)"
  by pat_completeness auto
termination
  by (relation "measure (\<lambda>(msk, sz, i, gm). nat (sz - i))") auto

declare mask_or_loop.simps [simp del]

text \<open>
  The loop of the disable branch and of \<^verbatim>\<open>disableGesture\<close>:
  \<^verbatim>\<open>temp = gesture_mask[i] ^ mask[i]; gesture_mask[i] = temp & gesture_mask[i];\<close>
\<close>

function mask_clear_loop :: "u8 list \<Rightarrow> int \<Rightarrow> int \<Rightarrow> u8 list \<Rightarrow> u8 list option" where
  "mask_clear_loop msk sz i gm =
     (if i < sz then
        do {
          a \<leftarrow> rd gm i;
          b \<leftarrow> rd msk i;
          let temp = a XOR b;
          a' \<leftarrow> rd gm i;
          gm' \<leftarrow> wr gm i (temp AND a');
          mask_clear_loop msk sz (i + 1) gm'
        }
      else Some gm)"
  by pat_completeness auto
termination
  by (relation "measure (\<lambda>(msk, sz, i, gm). nat (sz - i))") auto

declare mask_clear_loop.simps [simp del]

text \<open>
  The pointer argument is \<open>None\<close> for \<^verbatim>\<open>NULL\<close> and \<open>Some\<close> of the bytes it points to
  otherwise; \<open>msk\<close> is the parameter \<^verbatim>\<open>mask\<close> and \<open>sz\<close> the parameter
  \<^verbatim>\<open>size\<close>. A negative \<open>sz\<close> passes the test against \<^verbatim>\<open>GESTURE_MASK_SIZE\<close> and
  the loop then does not run. The result is the returned \<^verbatim>\<open>int\<close> with the new state.
\<close>

definition updateGestureMask ::
  "fts_config \<Rightarrow> u8 list option \<Rightarrow> int \<Rightarrow> int \<Rightarrow> gesture_state \<Rightarrow> (int \<times> gesture_state) option" where
  "updateGestureMask c msk sz en s =
     (case msk of
        Some m \<Rightarrow>
          if sz \<le> int (GESTURE_MASK_SIZE c) then
            if en = FEAT_ENABLE c then
              do {
                gm \<leftarrow> mask_or_loop m sz 0 (gesture_mask s);
                Some (OK c, s\<lparr>gesture_mask := gm, refreshGestureMask := 1\<rparr>)
              }
            else if en = FEAT_DISABLE c then
              do {
                gm \<leftarrow> mask_clear_loop m sz 0 (gesture_mask s);
                Some (OK c, s\<lparr>gesture_mask := gm, refreshGestureMask := 1\<rparr>)
              }
            else Some (ERROR_OP_NOT_ALLOW c, s)
          else Some (ERROR_OP_NOT_ALLOW c, s)
      | None \<Rightarrow> Some (ERROR_OP_NOT_ALLOW c, s))"

subsection \<open>enableGesture and disableGesture\<close>

text \<open>
  \<^verbatim>\<open>setFeatures(FEAT_SEL_GESTURE, p, GESTURE_MASK_SIZE)\<close> reads
  \<^verbatim>\<open>GESTURE_MASK_SIZE\<close> bytes at \<open>p\<close>; the call is recorded with those bytes.
\<close>

definition call_setFeatures :: "fts_env \<Rightarrow> u8 list \<Rightarrow> gesture_state \<Rightarrow> int \<times> gesture_state" where
  "call_setFeatures e payload s =
     (setFeatures e (calls s) payload, s\<lparr>calls := calls s @ [Call_setFeatures payload]\<rparr>)"

definition enableGesture ::
  "fts_config \<Rightarrow> fts_env \<Rightarrow> u8 list option \<Rightarrow> int \<Rightarrow> gesture_state \<Rightarrow> (int \<times> gesture_state) option" where
  "enableGesture c e msk sz s =
     (if sz \<le> int (GESTURE_MASK_SIZE c) then
        do {
          gm \<leftarrow> (case msk of
                  Some m \<Rightarrow> mask_or_loop m sz 0 (gesture_mask s)
                | None \<Rightarrow> Some (gesture_mask s));
          let s1 = s\<lparr>gesture_mask := gm\<rparr>;
          payload \<leftarrow> (if GESTURE_MASK_SIZE c \<le> length gm
                       then Some (take (GESTURE_MASK_SIZE c) gm) else None);
          let (res, s2) = call_setFeatures e payload s1;
          if res < OK c then Some (res, s2) else Some (OK c, s2)
        }
      else Some (ERROR_OP_NOT_ALLOW c, s))"


subsection \<open>enterGestureMode\<close>

definition call_fts_disableInterrupt :: "fts_env \<Rightarrow> gesture_state \<Rightarrow> int \<times> gesture_state" where
  "call_fts_disableInterrupt e s =
     (fts_disableInterrupt e (calls s), s\<lparr>calls := calls s @ [Call_fts_disableInterrupt]\<rparr>)"

definition call_fts_enableInterrupt :: "fts_env \<Rightarrow> gesture_state \<Rightarrow> int \<times> gesture_state" where
  "call_fts_enableInterrupt e s =
     (fts_enableInterrupt e (calls s), s\<lparr>calls := calls s @ [Call_fts_enableInterrupt]\<rparr>)"

definition call_setScanMode :: "fts_env \<Rightarrow> gesture_state \<Rightarrow> int \<times> gesture_state" where
  "call_setScanMode e s =
     (setScanMode e (calls s), s\<lparr>calls := calls s @ [Call_setScanMode]\<rparr>)"

text \<open>The code from the label \<^verbatim>\<open>END\<close> on, entered with \<^verbatim>\<open>res\<close>.\<close>

definition enterGestureMode_END ::
  "fts_config \<Rightarrow> fts_env \<Rightarrow> int \<Rightarrow> gesture_state \<Rightarrow> int \<times> gesture_state" where
  "enterGestureMode_END c e res s =
     (let (ret, s') = call_fts_enableInterrupt e s
      in if ret < OK c then (res OR (ret OR ERROR_ENABLE_INTER c), s') else (res, s'))"

text \<open>The code from the call of \<^verbatim>\<open>setScanMode\<close> on.\<close>

definition enterGestureMode_scan ::
  "fts_config \<Rightarrow> fts_env \<Rightarrow> gesture_state \<Rightarrow> int \<times> gesture_state" where
  "enterGestureMode_scan c e s =
     (let (res, s') = call_setScanMode e s
      in if res < OK c then enterGestureMode_END c e res s'
         else enterGestureMode_END c e (OK c) s')"

definition enterGestureMode ::
  "fts_config \<Rightarrow> fts_env \<Rightarrow> int \<Rightarrow> gesture_state \<Rightarrow> (int \<times> gesture_state) option" where
  "enterGestureMode c e reload s =
     (let (res, s1) = call_fts_disableInterrupt e s
      in if res < OK c then Some (res OR ERROR_DISABLE_INTER c, s1)
         else if reload = 1 \<or> refreshGestureMask s1 = 1 then
           do {
             (res, s2) \<leftarrow> enableGesture c e None 0 s1;
             if res < OK c then Some (enterGestureMode_END c e res s2)
             else Some (enterGestureMode_scan c e (s2\<lparr>refreshGestureMask := 0\<rparr>))
           }
         else Some (enterGestureMode_scan c e s1))"

subsection \<open>isAnyGestureActive\<close>

function isAnyGestureActive_loop :: "fts_config \<Rightarrow> u8 list \<Rightarrow> int \<Rightarrow> int option" where
  "isAnyGestureActive_loop c gm res =
     (if res < int (GESTURE_MASK_SIZE c) - 1 then
        do {
          b \<leftarrow> rd gm res;
          if b = 0 then isAnyGestureActive_loop c gm (res + 1) else Some res
        }
      else Some res)"
  by pat_completeness auto
termination
  by (relation "measure (\<lambda>(c, gm, res). nat (int (GESTURE_MASK_SIZE c) - 1 - res))") auto

declare isAnyGestureActive_loop.simps [simp del]

definition isAnyGestureActive :: "fts_config \<Rightarrow> gesture_state \<Rightarrow> int option" where
  "isAnyGestureActive c s =
     do {
       res \<leftarrow> isAnyGestureActive_loop c (gesture_mask s) 0;
       b \<leftarrow> rd (gesture_mask s) res;
       if b \<noteq> 0 then Some (FEAT_ENABLE c) else Some (FEAT_DISABLE c)
     }"

subsection \<open>readGestureCoords and getGestureCoords\<close>

text \<open>
  \<^verbatim>\<open>(((u16)hi) & 0x0F) << 8 | (((u16)lo) & 0xFF)\<close>, stored into a \<^verbatim>\<open>u16\<close>.
\<close>

definition unpack_coord :: "u8 \<Rightarrow> u8 \<Rightarrow> u16" where
  "unpack_coord hi lo = push_bit 8 ((ucast hi :: u16) AND 0x0F) OR ((ucast lo :: u16) AND 0xFF)"

text \<open>
  The decoding loop, from index \<open>i\<close> on; \<open>n\<close> is \<^verbatim>\<open>gesture_coords_reported\<close>, which
  the loop does not change.
\<close>

function decode_loop ::
  "u8 list \<Rightarrow> int \<Rightarrow> int \<Rightarrow> u16 list \<Rightarrow> u16 list \<Rightarrow> (u16 list \<times> u16 list) option" where
  "decode_loop val n i xs ys =
     (if i < n then
        do {
          hx \<leftarrow> rd val (i * 2 + 1);
          lx \<leftarrow> rd val (i * 2);
          xs' \<leftarrow> wr xs i (unpack_coord hx lx);
          hy \<leftarrow> rd val (n * 2 + i * 2 + 1);
          ly \<leftarrow> rd val (n * 2 + i * 2);
          ys' \<leftarrow> wr ys i (unpack_coord hy ly);
          decode_loop val n (i + 1) xs' ys'
        }
      else Some (xs, ys))"
  by pat_completeness auto
termination
  by (relation "measure (\<lambda>(val, n, i, xs, ys). nat (n - i))") auto

declare decode_loop.simps [simp del]

text \<open>
  The call \<^verbatim>\<open>fts_writeReadU8UX(FTS_CMD_FRAMEBUFFER_R, BITS_16, address, val, len,
  DUMMY_FRAMEBUFFER)\<close>. The local buffer \<^verbatim>\<open>val\<close> has
  \<^verbatim>\<open>GESTURE_MAX_COORDS_PAIRS_REPORT * 4\<close> bytes, none of them initialised: a read
  longer than that overruns it, and after the call only the first \<open>len\<close> bytes hold a value.
\<close>

definition call_fts_writeReadU8UX ::
  "fts_config \<Rightarrow> fts_env \<Rightarrow> int \<Rightarrow> int \<Rightarrow> gesture_state \<Rightarrow> (int \<times> u8 list \<times> gesture_state) option" where
  "call_fts_writeReadU8UX c e address len s =
     (if 0 \<le> len \<and> len \<le> int (GESTURE_MAX_COORDS_PAIRS_REPORT c * 4) then
        let (res, bytes) = fts_writeReadU8UX e (calls s) address len
        in Some (res, map bytes [0..<nat len],
                 s\<lparr>calls := calls s @ [Call_fts_writeReadU8UX address len]\<rparr>)
      else None)"

definition readGestureCoords ::
  "fts_config \<Rightarrow> fts_env \<Rightarrow> u8 list \<Rightarrow> gesture_state \<Rightarrow> (int \<times> gesture_state) option" where
  "readGestureCoords c e event s =
     do {
       e0 \<leftarrow> rd event 0;
       is_gesture \<leftarrow> (if uint e0 = EVT_ID_USER_REPORT c
                      then do { e1 \<leftarrow> rd event 1; Some (uint e1 = EVT_TYPE_USER_GESTURE c) }
                      else Some False);
       if is_gesture then
         do {
           e4 \<leftarrow> rd event 4;
           e3 \<leftarrow> rd event 3;
           let address = push_bit 8 (uint e4) OR uint e3;
           e5 \<leftarrow> rd event 5;
           let s1 = s\<lparr>gesture_coords_reported := uint e5\<rparr>;
           let s2 = (if gesture_coords_reported s1 > int (GESTURE_MAX_COORDS_PAIRS_REPORT c)
                     then s1\<lparr>gesture_coords_reported := int (GESTURE_MAX_COORDS_PAIRS_REPORT c)\<rparr>
                     else s1);
           (res, val, s3) \<leftarrow>
              call_fts_writeReadU8UX c e address (gesture_coords_reported s2 * 2 * 2) s2;
           if res < OK c then
             Some (res, s3\<lparr>gesture_coords_reported := ERROR_OP_NOT_ALLOW c\<rparr>)
           else
             do {
               (xs, ys) \<leftarrow> decode_loop val (gesture_coords_reported s3) 0
                              (gesture_coordinates_x s3) (gesture_coordinates_y s3);
               Some (OK c, s3\<lparr>gesture_coordinates_x := xs, gesture_coordinates_y := ys\<rparr>)
             }
         }
       else Some (ERROR_OP_NOT_ALLOW c, s)
     }"

definition getGestureCoords :: "gesture_state \<Rightarrow> u16 list \<times> u16 list \<times> int" where
  "getGestureCoords s =
     (gesture_coordinates_x s, gesture_coordinates_y s, gesture_coords_reported s)"

subsection \<open>A configuration for evaluating the model\<close>

text \<open>
  Sample values for the macros, for the statements that are evaluated at a concrete
  input only; no theorem about all inputs depends on them. A four-byte mask, room for 100
  coordinate pairs, \<^verbatim>\<open>OK\<close> equal to 0 and negative error codes
  (\<open>0x80000002\<close>, \<open>0x80000200\<close> and \<open>0x80000300\<close> read as 32-bit signed values).
\<close>

definition sample_config :: fts_config where
  "sample_config =
     \<lparr> GESTURE_MASK_SIZE = 4,
       GESTURE_MAX_COORDS_PAIRS_REPORT = 100,
       FEAT_ENABLE = 1,
       FEAT_DISABLE = 0,
       OK = 0,
       ERROR_OP_NOT_ALLOW = - 2147483646,
       ERROR_DISABLE_INTER = - 2147483136,
       ERROR_ENABLE_INTER = - 2147482880,
       EVT_ID_USER_REPORT = 0x53,
       EVT_TYPE_USER_GESTURE = 0x02 \<rparr>"

text \<open>Collaborators that return the same code at every call, and a framebuffer of zeros.\<close>

definition const_env :: "int \<Rightarrow> int \<Rightarrow> int \<Rightarrow> int \<Rightarrow> int \<Rightarrow> fts_env" where
  "const_env dis en feat scan rdres =
     \<lparr> fts_disableInterrupt = (\<lambda>h. dis),
       fts_enableInterrupt = (\<lambda>h. en),
       setFeatures = (\<lambda>h p. feat),
       setScanMode = (\<lambda>h. scan),
       fts_writeReadU8UX = (\<lambda>h a l. (rdres, (\<lambda>k. 0))) \<rparr>"

text \<open>A state with some gestures armed.\<close>

definition sample_state :: gesture_state where
  "sample_state = (init_state sample_config)\<lparr>gesture_mask := [0x0A, 0x81, 0x03, 0x04]\<rparr>"


text \<open>
  Collaborators that all succeed, with a framebuffer that holds two coordinate pairs:
  the X values \<open>0x134\<close> and \<open>0xFFF\<close>, then the Y values \<open>0x678\<close> and \<open>0x000\<close>.
  The high nibbles of the bytes \<open>0xFF\<close>, \<open>0x56\<close> and \<open>0xA0\<close> are not part of a coordinate.
\<close>

definition sample_payload :: "u8 list" where
  "sample_payload = [0x34, 0x01, 0xFF, 0xFF, 0x78, 0x56, 0x00, 0xA0]"

definition sample_env :: fts_env where
  "sample_env =
     \<lparr> fts_disableInterrupt = (\<lambda>h. 0),
       fts_enableInterrupt = (\<lambda>h. 0),
       setFeatures = (\<lambda>h p. 0),
       setScanMode = (\<lambda>h. 0),
       fts_writeReadU8UX =
         (\<lambda>h a l. (0, (\<lambda>k. if k < length sample_payload then sample_payload ! k else 0))) \<rparr>"

text \<open>
  Events as the interrupt handler passes them (eight bytes): a gesture event that reports
  two pairs at framebuffer offset \<open>0x2010\<close>, one that reports 105 pairs, and a user
  report that is not a gesture.
\<close>

definition gesture_event :: "u8 list" where
  "gesture_event = [0x53, 0x02, 0x00, 0x10, 0x20, 0x02, 0x00, 0x00]"

definition over_event :: "u8 list" where
  "over_event = [0x53, 0x02, 0x00, 0x10, 0x20, 105, 0x00, 0x00]"

definition other_event :: "u8 list" where
  "other_event = [0x53, 0x01, 0x00, 0x10, 0x20, 0x02, 0x00, 0x00]"

text \<open>The state after the gesture event has been decoded in the initial state.\<close>

definition decoded_state :: gesture_state where
  "decoded_state = (init_state sample_config)
     \<lparr> gesture_coordinates_x := (replicate 100 0)[0 := 0x134, 1 := 0xFFF],
       gesture_coordinates_y := (replicate 100 0)[0 := 0x678, 1 := 0x000],
       gesture_coords_reported := 2,
       calls := [Call_fts_writeReadU8UX 0x2010 8] \<rparr>"

section \<open>Array accesses in range\<close>

lemma rd_in_range: "0 \<le> i \<Longrightarrow> i < int (length xs) \<Longrightarrow> rd xs i = Some (xs ! nat i)"
  by (simp add: rd_def)

lemma wr_in_range: "0 \<le> i \<Longrightarrow> i < int (length xs) \<Longrightarrow> wr xs i v = Some (xs[nat i := v])"
  by (simp add: wr_def)

section \<open>The mask loops\<close>

lemma mask_or_loop_done: "\<not> i < sz \<Longrightarrow> mask_or_loop msk sz i gm = Some gm"
  by (simp add: mask_or_loop.simps)

lemma mask_or_loop_step:
  "i < sz \<Longrightarrow> 0 \<le> i \<Longrightarrow> i < int (length gm) \<Longrightarrow> i < int (length msk) \<Longrightarrow>
   mask_or_loop msk sz i gm = mask_or_loop msk sz (i + 1) (gm[nat i := gm ! nat i OR msk ! nat i])"
  by (subst mask_or_loop.simps) (simp add: rd_in_range wr_in_range)

lemma mask_or_loop_spec:
  "0 \<le> i \<Longrightarrow> sz \<le> int (length gm) \<Longrightarrow> sz \<le> int (length msk) \<Longrightarrow>
   \<exists>gm'. mask_or_loop msk sz i gm = Some gm' \<and> length gm' = length gm \<and>
     (\<forall>j<length gm. gm' ! j = (if i \<le> int j \<and> int j < sz then gm ! j OR msk ! j else gm ! j))"
proof (induction msk sz i gm rule: mask_or_loop.induct)
  case (1 msk sz i gm)
  show ?case
  proof (cases "i < sz")
    case False
    then show ?thesis by (auto simp: mask_or_loop_done)
  next
    case True
    let ?g = "gm[nat i := gm ! nat i OR msk ! nat i]"
    from True 1 have step: "mask_or_loop msk sz i gm = mask_or_loop msk sz (i + 1) ?g"
      by (intro mask_or_loop_step) auto
    from True 1 have rds: "rd gm i = Some (gm ! nat i)" "rd msk i = Some (msk ! nat i)"
      "wr gm i (gm ! nat i OR msk ! nat i) = Some ?g"
      by (auto simp: rd_in_range wr_in_range)
    have "\<exists>gm'. mask_or_loop msk sz (i + 1) ?g = Some gm' \<and> length gm' = length ?g \<and>
       (\<forall>j<length ?g. gm' ! j = (if i + 1 \<le> int j \<and> int j < sz then ?g ! j OR msk ! j else ?g ! j))"
      using "1.IH"[OF True rds] "1.prems" by simp
    then obtain gm' where g: "mask_or_loop msk sz (i + 1) ?g = Some gm'" "length gm' = length gm"
      and v: "\<forall>j<length gm. gm' ! j = (if i + 1 \<le> int j \<and> int j < sz then ?g ! j OR msk ! j else ?g ! j)"
      by auto
    have "\<forall>j<length gm. gm' ! j = (if i \<le> int j \<and> int j < sz then gm ! j OR msk ! j else gm ! j)"
    proof (intro allI impI)
      fix j assume j: "j < length gm"
      show "gm' ! j = (if i \<le> int j \<and> int j < sz then gm ! j OR msk ! j else gm ! j)"
      proof (cases "j = nat i")
        case True
        with v j "1.prems" \<open>i < sz\<close> show ?thesis by simp
      next
        case False
        with v j "1.prems" show ?thesis by (auto simp: nth_list_update)
      qed
    qed
    with step g show ?thesis by simp
  qed
qed

lemma mask_clear_loop_done: "\<not> i < sz \<Longrightarrow> mask_clear_loop msk sz i gm = Some gm"
  by (simp add: mask_clear_loop.simps)

lemma mask_clear_loop_step:
  "i < sz \<Longrightarrow> 0 \<le> i \<Longrightarrow> i < int (length gm) \<Longrightarrow> i < int (length msk) \<Longrightarrow>
   mask_clear_loop msk sz i gm =
     mask_clear_loop msk sz (i + 1) (gm[nat i := (gm ! nat i XOR msk ! nat i) AND gm ! nat i])"
  by (subst mask_clear_loop.simps) (simp add: rd_in_range wr_in_range)

lemma mask_clear_loop_spec:
  "0 \<le> i \<Longrightarrow> sz \<le> int (length gm) \<Longrightarrow> sz \<le> int (length msk) \<Longrightarrow>
   \<exists>gm'. mask_clear_loop msk sz i gm = Some gm' \<and> length gm' = length gm \<and>
     (\<forall>j<length gm. gm' ! j =
        (if i \<le> int j \<and> int j < sz then (gm ! j XOR msk ! j) AND gm ! j else gm ! j))"
proof (induction msk sz i gm rule: mask_clear_loop.induct)
  case (1 msk sz i gm)
  show ?case
  proof (cases "i < sz")
    case False
    then show ?thesis by (auto simp: mask_clear_loop_done)
  next
    case True
    let ?g = "gm[nat i := (gm ! nat i XOR msk ! nat i) AND gm ! nat i]"
    from True 1 have step: "mask_clear_loop msk sz i gm = mask_clear_loop msk sz (i + 1) ?g"
      by (intro mask_clear_loop_step) auto
    from True 1 have rds: "rd gm i = Some (gm ! nat i)" "rd msk i = Some (msk ! nat i)"
      "wr gm i ((gm ! nat i XOR msk ! nat i) AND gm ! nat i) = Some ?g"
      by (auto simp: rd_in_range wr_in_range)
    have "\<exists>gm'. mask_clear_loop msk sz (i + 1) ?g = Some gm' \<and> length gm' = length ?g \<and>
       (\<forall>j<length ?g. gm' ! j =
          (if i + 1 \<le> int j \<and> int j < sz then (?g ! j XOR msk ! j) AND ?g ! j else ?g ! j))"
      using "1.IH"[OF True rds(1) rds(2) refl rds(1) rds(3)] "1.prems" by simp
    then obtain gm' where g: "mask_clear_loop msk sz (i + 1) ?g = Some gm'" "length gm' = length gm"
      and v: "\<forall>j<length gm. gm' ! j =
          (if i + 1 \<le> int j \<and> int j < sz then (?g ! j XOR msk ! j) AND ?g ! j else ?g ! j)"
      by auto
    have "\<forall>j<length gm. gm' ! j =
        (if i \<le> int j \<and> int j < sz then (gm ! j XOR msk ! j) AND gm ! j else gm ! j)"
    proof (intro allI impI)
      fix j assume j: "j < length gm"
      show "gm' ! j = (if i \<le> int j \<and> int j < sz then (gm ! j XOR msk ! j) AND gm ! j else gm ! j)"
      proof (cases "j = nat i")
        case True
        with v j "1.prems" \<open>i < sz\<close> show ?thesis by simp
      next
        case False
        with v j "1.prems" show ?thesis by (auto simp: nth_list_update)
      qed
    qed
    with step g show ?thesis by simp
  qed
qed

lemma xor_and_self_eq: "((a::u8) XOR b) AND a = a AND NOT b"
  by (rule bit_eqI) (auto simp: bit_simps)

section \<open>updateGestureMask\<close>

text \<open>
  Claim C2. For a non-null delta that holds at least \<open>sz\<close> bytes and
  \<open>0 \<le> sz \<le> GESTURE_MASK_SIZE\<close>, \<^verbatim>\<open>updateGestureMask(delta, sz, FEAT_ENABLE)\<close>
  returns \<^verbatim>\<open>OK\<close>; in each of the first \<open>sz\<close> bytes of the mask every bit set in the
  delta is set and every bit that was set stays set; the bytes at indices from \<open>sz\<close> on
  are unchanged.
\<close>

theorem updateGestureMask_enable_sets_bits:
  assumes "length (gesture_mask s) = GESTURE_MASK_SIZE c"
    and "0 \<le> sz" and "sz \<le> int (GESTURE_MASK_SIZE c)" and "sz \<le> int (length delta)"
  shows "\<exists>s'. updateGestureMask c (Some delta) sz (FEAT_ENABLE c) s = Some (OK c, s') \<and>
     length (gesture_mask s') = GESTURE_MASK_SIZE c \<and>
     (\<forall>i<nat sz. \<forall>k. bit (delta ! i) k \<or> bit (gesture_mask s ! i) k
                       \<longrightarrow> bit (gesture_mask s' ! i) k) \<and>
     (\<forall>i<GESTURE_MASK_SIZE c. nat sz \<le> i \<longrightarrow> gesture_mask s' ! i = gesture_mask s ! i)"
proof -
  from assms obtain gm' where l: "mask_or_loop delta sz 0 (gesture_mask s) = Some gm'"
      "length gm' = length (gesture_mask s)"
    and v: "\<forall>j<length (gesture_mask s). gm' ! j =
         (if 0 \<le> int j \<and> int j < sz then gesture_mask s ! j OR delta ! j else gesture_mask s ! j)"
    using mask_or_loop_spec[of 0 sz "gesture_mask s" delta] by auto
  let ?s' = "s\<lparr>gesture_mask := gm', refreshGestureMask := 1\<rparr>"
  have r: "updateGestureMask c (Some delta) sz (FEAT_ENABLE c) s = Some (OK c, ?s')"
    using assms l by (simp add: updateGestureMask_def)
  have covered: "\<forall>i<nat sz. \<forall>k. bit (delta ! i) k \<or> bit (gesture_mask s ! i) k \<longrightarrow> bit (gm' ! i) k"
  proof (intro allI impI)
    fix i k assume i: "i < nat sz" and b: "bit (delta ! i) k \<or> bit (gesture_mask s ! i) k"
    from i assms have "i < length (gesture_mask s)" "int i < sz" by auto
    with v have "gm' ! i = gesture_mask s ! i OR delta ! i" by simp
    with b show "bit (gm' ! i) k" by (auto simp: bit_or_iff)
  qed
  have rest: "\<forall>i<GESTURE_MASK_SIZE c. nat sz \<le> i \<longrightarrow> gm' ! i = gesture_mask s ! i"
    using v assms by auto
  from r l assms covered rest show ?thesis by simp
qed

text \<open>The hypotheses of C2 hold for a two-byte delta on the sample state.\<close>

theorem updateGestureMask_enable_sets_bits_witness:
  "length (gesture_mask sample_state) = GESTURE_MASK_SIZE sample_config \<and>
   (0::int) \<le> 2 \<and> 2 \<le> int (GESTURE_MASK_SIZE sample_config) \<and> 2 \<le> int (length [0x05, 0x80 :: u8]) \<and>
   (\<exists>s'. updateGestureMask sample_config (Some [0x05, 0x80]) 2 (FEAT_ENABLE sample_config) sample_state
            = Some (OK sample_config, s') \<and>
      (\<forall>i<nat 2. \<forall>k. bit ([0x05, 0x80 :: u8] ! i) k \<or> bit (gesture_mask sample_state ! i) k
                       \<longrightarrow> bit (gesture_mask s' ! i) k) \<and>
      (\<forall>i<GESTURE_MASK_SIZE sample_config. nat 2 \<le> i
          \<longrightarrow> gesture_mask s' ! i = gesture_mask sample_state ! i))"
proof -
  have h: "length (gesture_mask sample_state) = GESTURE_MASK_SIZE sample_config"
    "(0::int) \<le> 2" "2 \<le> int (GESTURE_MASK_SIZE sample_config)" "2 \<le> int (length [0x05, 0x80 :: u8])"
    by (simp_all add: sample_state_def sample_config_def init_state_def)
  from updateGestureMask_enable_sets_bits[OF h] h show ?thesis by blast
qed

text \<open>
  Claim C3. For a non-null delta that holds at least \<open>sz\<close> bytes and
  \<open>0 \<le> sz \<le> GESTURE_MASK_SIZE\<close>, \<^verbatim>\<open>updateGestureMask(delta, sz, FEAT_DISABLE)\<close>
  returns \<^verbatim>\<open>OK\<close>; each covered byte becomes \<open>M[i] AND NOT D[i]\<close>, so a bit is set
  afterwards exactly when it was set in the mask and is not set in the delta; the bytes at
  indices from \<open>sz\<close> on are unchanged. The disable selector is a value other than the
  enable selector, which the code tests first.
\<close>

theorem updateGestureMask_disable_clears_bits:
  assumes "length (gesture_mask s) = GESTURE_MASK_SIZE c"
    and "FEAT_DISABLE c \<noteq> FEAT_ENABLE c"
    and "0 \<le> sz" and "sz \<le> int (GESTURE_MASK_SIZE c)" and "sz \<le> int (length delta)"
  shows "\<exists>s'. updateGestureMask c (Some delta) sz (FEAT_DISABLE c) s = Some (OK c, s') \<and>
     length (gesture_mask s') = GESTURE_MASK_SIZE c \<and>
     (\<forall>i<nat sz. gesture_mask s' ! i = gesture_mask s ! i AND NOT (delta ! i) \<and>
        (\<forall>k. bit (gesture_mask s' ! i) k \<longleftrightarrow> bit (gesture_mask s ! i) k \<and> \<not> bit (delta ! i) k)) \<and>
     (\<forall>i<GESTURE_MASK_SIZE c. nat sz \<le> i \<longrightarrow> gesture_mask s' ! i = gesture_mask s ! i)"
proof -
  from assms obtain gm' where l: "mask_clear_loop delta sz 0 (gesture_mask s) = Some gm'"
      "length gm' = length (gesture_mask s)"
    and v: "\<forall>j<length (gesture_mask s). gm' ! j =
         (if 0 \<le> int j \<and> int j < sz then (gesture_mask s ! j XOR delta ! j) AND gesture_mask s ! j
          else gesture_mask s ! j)"
    using mask_clear_loop_spec[of 0 sz "gesture_mask s" delta] by auto
  let ?s' = "s\<lparr>gesture_mask := gm', refreshGestureMask := 1\<rparr>"
  have r: "updateGestureMask c (Some delta) sz (FEAT_DISABLE c) s = Some (OK c, ?s')"
    using assms l by (simp add: updateGestureMask_def)
  have covered: "\<forall>i<nat sz. gm' ! i = gesture_mask s ! i AND NOT (delta ! i) \<and>
        (\<forall>k. bit (gm' ! i) k \<longleftrightarrow> bit (gesture_mask s ! i) k \<and> \<not> bit (delta ! i) k)"
  proof (intro allI impI)
    fix i assume i: "i < nat sz"
    from i assms have "i < length (gesture_mask s)" "int i < sz" by auto
    with v have e: "gm' ! i = gesture_mask s ! i AND NOT (delta ! i)"
      by (simp add: xor_and_self_eq)
    have "\<forall>k. bit (gm' ! i) k \<longleftrightarrow> bit (gesture_mask s ! i) k \<and> \<not> bit (delta ! i) k"
      unfolding e by (auto simp: bit_and_iff bit_not_iff dest: bit_imp_possible_bit)
    with e show "gm' ! i = gesture_mask s ! i AND NOT (delta ! i) \<and>
        (\<forall>k. bit (gm' ! i) k \<longleftrightarrow> bit (gesture_mask s ! i) k \<and> \<not> bit (delta ! i) k)" by simp
  qed
  have rest: "\<forall>i<GESTURE_MASK_SIZE c. nat sz \<le> i \<longrightarrow> gm' ! i = gesture_mask s ! i"
    using v assms by auto
  have sel: "gesture_mask ?s' = gm'" by simp
  show ?thesis
  proof (intro exI conjI)
    show "updateGestureMask c (Some delta) sz (FEAT_DISABLE c) s = Some (OK c, ?s')" by (rule r)
    show "length (gesture_mask ?s') = GESTURE_MASK_SIZE c" using l assms by simp
    show "\<forall>i<nat sz. gesture_mask ?s' ! i = gesture_mask s ! i AND NOT (delta ! i) \<and>
        (\<forall>k. bit (gesture_mask ?s' ! i) k \<longleftrightarrow> bit (gesture_mask s ! i) k \<and> \<not> bit (delta ! i) k)"
      unfolding sel by (rule covered)
    show "\<forall>i<GESTURE_MASK_SIZE c. nat sz \<le> i \<longrightarrow> gesture_mask ?s' ! i = gesture_mask s ! i"
      unfolding sel by (rule rest)
  qed
qed

text \<open>The hypotheses of C3 hold for a two-byte delta on the sample state.\<close>

theorem updateGestureMask_disable_clears_bits_witness:
  "length (gesture_mask sample_state) = GESTURE_MASK_SIZE sample_config \<and>
   FEAT_DISABLE sample_config \<noteq> FEAT_ENABLE sample_config \<and>
   (0::int) \<le> 2 \<and> 2 \<le> int (GESTURE_MASK_SIZE sample_config) \<and> 2 \<le> int (length [0x08, 0x80 :: u8]) \<and>
   (\<exists>s'. updateGestureMask sample_config (Some [0x08, 0x80]) 2 (FEAT_DISABLE sample_config) sample_state
            = Some (OK sample_config, s') \<and>
      (\<forall>i<nat 2. gesture_mask s' ! i = gesture_mask sample_state ! i AND NOT ([0x08, 0x80 :: u8] ! i)) \<and>
      (\<forall>i<GESTURE_MASK_SIZE sample_config. nat 2 \<le> i
          \<longrightarrow> gesture_mask s' ! i = gesture_mask sample_state ! i))"
proof -
  have h: "length (gesture_mask sample_state) = GESTURE_MASK_SIZE sample_config"
    "FEAT_DISABLE sample_config \<noteq> FEAT_ENABLE sample_config"
    "(0::int) \<le> 2" "2 \<le> int (GESTURE_MASK_SIZE sample_config)" "2 \<le> int (length [0x08, 0x80 :: u8])"
    by (simp_all add: sample_state_def sample_config_def init_state_def)
  from updateGestureMask_disable_clears_bits[OF h] h show ?thesis by blast
qed

text \<open>
  Claim C10. With a non-null delta, a size of zero or less (negative sizes included) and
  either recognised selector, \<^verbatim>\<open>updateGestureMask\<close> returns \<^verbatim>\<open>OK\<close>, changes no
  byte of the mask and sets the refresh flag: the state returned is the state given with
  \<^verbatim>\<open>refreshGestureMask\<close> set to 1.
\<close>

theorem updateGestureMask_nonpositive_size:
  assumes "sz \<le> 0" and "en = FEAT_ENABLE c \<or> en = FEAT_DISABLE c"
  shows "updateGestureMask c (Some delta) sz en s = Some (OK c, s\<lparr>refreshGestureMask := 1\<rparr>)"
proof -
  from assms(1) have "\<not> 0 < sz" by simp
  then have "mask_or_loop delta sz 0 (gesture_mask s) = Some (gesture_mask s)"
    and "mask_clear_loop delta sz 0 (gesture_mask s) = Some (gesture_mask s)"
    by (simp_all add: mask_or_loop_done mask_clear_loop_done)
  moreover from assms(1) have "sz \<le> int (GESTURE_MASK_SIZE c)" by simp
  ultimately show ?thesis using assms(2) by (auto simp: updateGestureMask_def)
qed

text \<open>The hypotheses of C10 hold for the size -3 and the disable selector.\<close>

theorem updateGestureMask_nonpositive_size_witness:
  "(- 3 :: int) \<le> 0 \<and>
   (FEAT_DISABLE sample_config = FEAT_ENABLE sample_config \<or>
    FEAT_DISABLE sample_config = FEAT_DISABLE sample_config) \<and>
   updateGestureMask sample_config (Some [0x08, 0x80]) (- 3) (FEAT_DISABLE sample_config) sample_state
     = Some (OK sample_config, sample_state\<lparr>refreshGestureMask := 1\<rparr>)"
proof -
  have h: "(- 3 :: int) \<le> 0"
    "FEAT_DISABLE sample_config = FEAT_ENABLE sample_config \<or>
     FEAT_DISABLE sample_config = FEAT_DISABLE sample_config"
    by simp_all
  from updateGestureMask_nonpositive_size[OF h] h show ?thesis by blast
qed

section \<open>Failure codes\<close>

lemma rd_event:
  "6 \<le> length event \<Longrightarrow>
   rd event 0 = Some (event ! 0) \<and> rd event 1 = Some (event ! 1) \<and> rd event 3 = Some (event ! 3) \<and>
   rd event 4 = Some (event ! 4) \<and> rd event 5 = Some (event ! 5)"
  by (auto simp: rd_def)

lemma header_mismatch_returns:
  assumes "6 \<le> length event"
    and "uint (event ! 0) \<noteq> EVT_ID_USER_REPORT c \<or> uint (event ! 1) \<noteq> EVT_TYPE_USER_GESTURE c"
  shows "readGestureCoords c e event s = Some (ERROR_OP_NOT_ALLOW c, s)"
  using rd_event[OF assms(1)] assms(2) by (auto simp: readGestureCoords_def)

text \<open>
  Claim C9 as stated fails: the code has one failure code for all of these cases. On the
  sample state a null delta, an oversized size, an unrecognised selector (7) and an event
  with a foreign header all yield \<^verbatim>\<open>ERROR_OP_NOT_ALLOW\<close>, so the value returned does not
  tell an invalid argument from an invalid mode or an invalid event.
\<close>

theorem failure_codes_coincide:
  "updateGestureMask sample_config None 1 (FEAT_ENABLE sample_config) sample_state
     = Some (ERROR_OP_NOT_ALLOW sample_config, sample_state) \<and>
   updateGestureMask sample_config (Some [0x01]) 5 (FEAT_ENABLE sample_config) sample_state
     = Some (ERROR_OP_NOT_ALLOW sample_config, sample_state) \<and>
   updateGestureMask sample_config (Some [0x01]) 1 7 sample_state
     = Some (ERROR_OP_NOT_ALLOW sample_config, sample_state) \<and>
   readGestureCoords sample_config sample_env other_event sample_state
     = Some (ERROR_OP_NOT_ALLOW sample_config, sample_state) \<and>
   7 \<noteq> FEAT_ENABLE sample_config \<and> 7 \<noteq> FEAT_DISABLE sample_config"
proof -
  have "readGestureCoords sample_config sample_env other_event sample_state
     = Some (ERROR_OP_NOT_ALLOW sample_config, sample_state)"
    by (rule header_mismatch_returns) (simp_all add: other_event_def sample_config_def)
  then show ?thesis
    by (simp add: updateGestureMask_def sample_config_def)
qed

text \<open>
  Claim C9, amended. \<^verbatim>\<open>updateGestureMask\<close> returns the single code
  \<^verbatim>\<open>ERROR_OP_NOT_ALLOW\<close> for a null delta, for a size above \<^verbatim>\<open>GESTURE_MASK_SIZE\<close>
  and for a selector that is neither \<^verbatim>\<open>FEAT_ENABLE\<close> nor \<^verbatim>\<open>FEAT_DISABLE\<close>, and
  \<^verbatim>\<open>readGestureCoords\<close> returns that same code for an event whose header does not
  match; in each case the state is unchanged.
\<close>

theorem failures_return_ERROR_OP_NOT_ALLOW:
  "updateGestureMask c None sz en s = Some (ERROR_OP_NOT_ALLOW c, s) \<and>
   (int (GESTURE_MASK_SIZE c) < sz \<longrightarrow>
      updateGestureMask c (Some delta) sz en s = Some (ERROR_OP_NOT_ALLOW c, s)) \<and>
   (sz \<le> int (GESTURE_MASK_SIZE c) \<and> en \<noteq> FEAT_ENABLE c \<and> en \<noteq> FEAT_DISABLE c \<longrightarrow>
      updateGestureMask c (Some delta) sz en s = Some (ERROR_OP_NOT_ALLOW c, s)) \<and>
   (6 \<le> length event \<and>
    (uint (event ! 0) \<noteq> EVT_ID_USER_REPORT c \<or> uint (event ! 1) \<noteq> EVT_TYPE_USER_GESTURE c) \<longrightarrow>
      readGestureCoords c e event s = Some (ERROR_OP_NOT_ALLOW c, s))"
  using header_mismatch_returns[of event c e s]
  by (simp add: updateGestureMask_def)

text \<open>
  The hypotheses of the amended C9 hold on the sample state: size 5 for a four-byte mask,
  the selector 7, and the user report that is not a gesture.
\<close>

theorem failures_return_ERROR_OP_NOT_ALLOW_witness:
  "int (GESTURE_MASK_SIZE sample_config) < 5 \<and>
   1 \<le> int (GESTURE_MASK_SIZE sample_config) \<and>
   7 \<noteq> FEAT_ENABLE sample_config \<and> 7 \<noteq> FEAT_DISABLE sample_config \<and>
   6 \<le> length other_event \<and>
   uint (other_event ! 1) \<noteq> EVT_TYPE_USER_GESTURE sample_config \<and>
   updateGestureMask sample_config (Some [0x01]) 5 (FEAT_ENABLE sample_config) sample_state
     = Some (ERROR_OP_NOT_ALLOW sample_config, sample_state) \<and>
   updateGestureMask sample_config (Some [0x01]) 1 7 sample_state
     = Some (ERROR_OP_NOT_ALLOW sample_config, sample_state) \<and>
   readGestureCoords sample_config sample_env other_event sample_state
     = Some (ERROR_OP_NOT_ALLOW sample_config, sample_state)"
proof -
  have h: "int (GESTURE_MASK_SIZE sample_config) < 5"
    "1 \<le> int (GESTURE_MASK_SIZE sample_config)"
    "7 \<noteq> FEAT_ENABLE sample_config" "7 \<noteq> FEAT_DISABLE sample_config"
    "6 \<le> length other_event"
    "uint (other_event ! 1) \<noteq> EVT_TYPE_USER_GESTURE sample_config"
    by (simp_all add: other_event_def sample_config_def)
  from failures_return_ERROR_OP_NOT_ALLOW[of sample_config 5 "FEAT_ENABLE sample_config"
      sample_state "[0x01]" other_event sample_env]
    failures_return_ERROR_OP_NOT_ALLOW[of sample_config 1 7
      sample_state "[0x01]" other_event sample_env] h
  show ?thesis by blast
qed

section \<open>enterGestureMode\<close>

lemma enableGesture_refresh:
  assumes "GESTURE_MASK_SIZE c \<le> length (gesture_mask s)"
  shows "enableGesture c e None 0 s =
     Some (if setFeatures e (calls s) (take (GESTURE_MASK_SIZE c) (gesture_mask s)) < OK c
           then setFeatures e (calls s) (take (GESTURE_MASK_SIZE c) (gesture_mask s)) else OK c,
           s\<lparr>calls := calls s @ [Call_setFeatures (take (GESTURE_MASK_SIZE c) (gesture_mask s))]\<rparr>)"
  using assms by (simp add: enableGesture_def call_setFeatures_def)

lemma enterGestureMode_END_calls:
  "enterGestureMode_END c e res s =
     (if fts_enableInterrupt e (calls s) < OK c
      then res OR (fts_enableInterrupt e (calls s) OR ERROR_ENABLE_INTER c) else res,
      s\<lparr>calls := calls s @ [Call_fts_enableInterrupt]\<rparr>)"
  by (simp add: enterGestureMode_END_def call_fts_enableInterrupt_def)

lemma enterGestureMode_scan_calls:
  "enterGestureMode_scan c e s =
     enterGestureMode_END c e (if setScanMode e (calls s) < OK c then setScanMode e (calls s) else OK c)
       (s\<lparr>calls := calls s @ [Call_setScanMode]\<rparr>)"
  by (simp add: enterGestureMode_scan_def call_setScanMode_def)

text \<open>
  Claim C6. When \<^verbatim>\<open>fts_disableInterrupt\<close> fails, \<^verbatim>\<open>enterGestureMode\<close> returns
  its code or-ed with \<^verbatim>\<open>ERROR_DISABLE_INTER\<close>, and the state returned differs from the
  state given only by the one recorded call: no \<^verbatim>\<open>setFeatures\<close>, no
  \<^verbatim>\<open>setScanMode\<close> and no \<^verbatim>\<open>fts_enableInterrupt\<close> call is made, and the mask and the
  refresh flag are unchanged.
\<close>

theorem enterGestureMode_disable_failure:
  assumes "fts_disableInterrupt e (calls s) < OK c"
  shows "enterGestureMode c e reload s =
     Some (fts_disableInterrupt e (calls s) OR ERROR_DISABLE_INTER c,
           s\<lparr>calls := calls s @ [Call_fts_disableInterrupt]\<rparr>)"
  using assms by (simp add: enterGestureMode_def call_fts_disableInterrupt_def)

text \<open>
  The hypothesis of C6 holds for collaborators whose interrupt disable returns -1.
\<close>

theorem enterGestureMode_disable_failure_witness:
  "fts_disableInterrupt (const_env (- 1) 0 0 0 0) (calls sample_state) < OK sample_config \<and>
   enterGestureMode sample_config (const_env (- 1) 0 0 0 0) 1 sample_state =
     Some (fts_disableInterrupt (const_env (- 1) 0 0 0 0) (calls sample_state)
             OR ERROR_DISABLE_INTER sample_config,
           sample_state\<lparr>calls := calls sample_state @ [Call_fts_disableInterrupt]\<rparr>)"
proof -
  have h: "fts_disableInterrupt (const_env (- 1) 0 0 0 0) (calls sample_state) < OK sample_config"
    by (simp add: const_env_def sample_config_def)
  from enterGestureMode_disable_failure[OF h] h show ?thesis by blast
qed

text \<open>
  Claim C7. When \<^verbatim>\<open>fts_disableInterrupt\<close> succeeds, \<^verbatim>\<open>enterGestureMode\<close> returns,
  and the calls it made are the disable, then some calls \<open>new\<close>, then one
  \<^verbatim>\<open>fts_enableInterrupt\<close>: the enable is called exactly once, whatever the mask push and
  the scan-mode command return. If the calls before the enable end with a
  \<^verbatim>\<open>setScanMode\<close> that failed and the enable succeeds, the value returned is the code
  that \<^verbatim>\<open>setScanMode\<close> returned.
\<close>

theorem enterGestureMode_reenables_once:
  assumes dis: "\<not> fts_disableInterrupt e (calls s) < OK c"
    and len: "length (gesture_mask s) = GESTURE_MASK_SIZE c"
  shows "\<exists>res s' new. enterGestureMode c e reload s = Some (res, s') \<and>
     calls s' = calls s @ [Call_fts_disableInterrupt] @ new @ [Call_fts_enableInterrupt] \<and>
     count_list ([Call_fts_disableInterrupt] @ new @ [Call_fts_enableInterrupt])
        Call_fts_enableInterrupt = 1 \<and>
     (\<forall>pre. new = pre @ [Call_setScanMode] \<and>
        setScanMode e (calls s @ [Call_fts_disableInterrupt] @ pre) < OK c \<and>
        \<not> fts_enableInterrupt e (calls s @ [Call_fts_disableInterrupt] @ new) < OK c
        \<longrightarrow> res = setScanMode e (calls s @ [Call_fts_disableInterrupt] @ pre))"
proof -
  let ?s1 = "s\<lparr>calls := calls s @ [Call_fts_disableInterrupt]\<rparr>"
  let ?payload = "take (GESTURE_MASK_SIZE c) (gesture_mask s)"
  let ?push = "setFeatures e (calls ?s1) ?payload"
  show ?thesis
  proof (cases "reload = 1 \<or> refreshGestureMask s = 1")
    case False
    with dis have "enterGestureMode c e reload s = Some (enterGestureMode_scan c e ?s1)"
      by (auto simp: enterGestureMode_def call_fts_disableInterrupt_def)
    then show ?thesis
      by (simp add: enterGestureMode_scan_calls enterGestureMode_END_calls)
  next
    case True
    from len have eg: "enableGesture c e None 0 ?s1 =
        Some (if ?push < OK c then ?push else OK c,
              ?s1\<lparr>calls := calls ?s1 @ [Call_setFeatures ?payload]\<rparr>)"
      using enableGesture_refresh[of c ?s1 e] by simp
    show ?thesis
    proof (cases "?push < OK c")
      case True
      with \<open>reload = 1 \<or> refreshGestureMask s = 1\<close> dis eg
      have "enterGestureMode c e reload s =
          Some (enterGestureMode_END c e ?push (?s1\<lparr>calls := calls ?s1 @ [Call_setFeatures ?payload]\<rparr>))"
        by (auto simp: enterGestureMode_def call_fts_disableInterrupt_def)
      then show ?thesis
        by (simp add: enterGestureMode_END_calls)
    next
      case False
      with \<open>reload = 1 \<or> refreshGestureMask s = 1\<close> dis eg
      have "enterGestureMode c e reload s =
          Some (enterGestureMode_scan c e
                 (?s1\<lparr>calls := calls ?s1 @ [Call_setFeatures ?payload], refreshGestureMask := 0\<rparr>))"
        by (auto simp: enterGestureMode_def call_fts_disableInterrupt_def)
      then show ?thesis
        by (simp add: enterGestureMode_scan_calls enterGestureMode_END_calls)
    qed
  qed
qed

text \<open>
  A run on the sample state with collaborators whose scan-mode command returns -5 while
  the others succeed: the mask is pushed, the scan-mode command fails, the interrupt is
  enabled again and -5 is returned.
\<close>

lemma enterGestureMode_scan_failure_sample:
  "enterGestureMode sample_config (const_env 0 0 0 (- 5) 0) 1 sample_state =
     Some (- 5, sample_state\<lparr>calls := [Call_fts_disableInterrupt,
                   Call_setFeatures [0x0A, 0x81, 0x03, 0x04], Call_setScanMode,
                   Call_fts_enableInterrupt]\<rparr>)"
  by (simp add: enterGestureMode_def enableGesture_def call_fts_disableInterrupt_def
      call_setFeatures_def enterGestureMode_scan_calls enterGestureMode_END_calls
      const_env_def sample_config_def sample_state_def init_state_def)

text \<open>
  The hypotheses of C7 hold in that run, those of its last part included: the calls before
  the enable end with the failed scan-mode command and the enable succeeds, so the value
  returned is -5.
\<close>

theorem enterGestureMode_reenables_once_witness:
  "\<not> fts_disableInterrupt (const_env 0 0 0 (- 5) 0) (calls sample_state) < OK sample_config \<and>
   length (gesture_mask sample_state) = GESTURE_MASK_SIZE sample_config \<and>
   setScanMode (const_env 0 0 0 (- 5) 0)
     (calls sample_state @ [Call_fts_disableInterrupt] @ [Call_setFeatures [0x0A, 0x81, 0x03, 0x04]])
     < OK sample_config \<and>
   \<not> fts_enableInterrupt (const_env 0 0 0 (- 5) 0)
       (calls sample_state @ [Call_fts_disableInterrupt] @
        [Call_setFeatures [0x0A, 0x81, 0x03, 0x04], Call_setScanMode]) < OK sample_config \<and>
   (\<exists>s'. enterGestureMode sample_config (const_env 0 0 0 (- 5) 0) 1 sample_state = Some (- 5, s') \<and>
      calls s' = calls sample_state @ [Call_fts_disableInterrupt] @
        [Call_setFeatures [0x0A, 0x81, 0x03, 0x04], Call_setScanMode] @ [Call_fts_enableInterrupt] \<and>
      count_list (calls s') Call_fts_enableInterrupt = 1)"
proof -
  let ?e = "const_env 0 0 0 (- 5) 0"
  let ?pre = "[Call_setFeatures [0x0A, 0x81, 0x03, 0x04]]"
  have h: "\<not> fts_disableInterrupt ?e (calls sample_state) < OK sample_config"
    "length (gesture_mask sample_state) = GESTURE_MASK_SIZE sample_config"
    by (simp_all add: const_env_def sample_config_def sample_state_def init_state_def)
  have scan: "setScanMode ?e (calls sample_state @ [Call_fts_disableInterrupt] @ ?pre)
      < OK sample_config"
    and en: "\<not> fts_enableInterrupt ?e
       (calls sample_state @ [Call_fts_disableInterrupt] @ ?pre @ [Call_setScanMode])
        < OK sample_config"
    and code: "setScanMode ?e (calls sample_state @ [Call_fts_disableInterrupt] @ ?pre) = - 5"
    by (simp_all add: const_env_def sample_config_def)
  have c0: "calls sample_state = []"
    by (simp add: sample_state_def init_state_def)
  from enterGestureMode_reenables_once[OF h, of 1]
  obtain res s' new where run: "enterGestureMode sample_config ?e 1 sample_state = Some (res, s')"
    and cs: "calls s' = calls sample_state @ [Call_fts_disableInterrupt] @ new @ [Call_fts_enableInterrupt]"
    and one: "count_list ([Call_fts_disableInterrupt] @ new @ [Call_fts_enableInterrupt])
        Call_fts_enableInterrupt = 1"
    and ret: "\<forall>pre. new = pre @ [Call_setScanMode] \<and>
        setScanMode ?e (calls sample_state @ [Call_fts_disableInterrupt] @ pre) < OK sample_config \<and>
        \<not> fts_enableInterrupt ?e (calls sample_state @ [Call_fts_disableInterrupt] @ new)
            < OK sample_config
        \<longrightarrow> res = setScanMode ?e (calls sample_state @ [Call_fts_disableInterrupt] @ pre)"
    by blast
  from run have "s' = sample_state\<lparr>calls := [Call_fts_disableInterrupt,
      Call_setFeatures [0x0A, 0x81, 0x03, 0x04], Call_setScanMode, Call_fts_enableInterrupt]\<rparr>"
    unfolding enterGestureMode_scan_failure_sample by simp
  then have "calls s' = [Call_fts_disableInterrupt, Call_setFeatures [0x0A, 0x81, 0x03, 0x04],
      Call_setScanMode, Call_fts_enableInterrupt]"
    by simp
  with cs c0 have new: "new = ?pre @ [Call_setScanMode]" by simp
  with ret scan en code have "res = - 5" by simp
  with run cs one new c0 h scan en show ?thesis by simp
qed

section \<open>readGestureCoords\<close>

lemma decode_loop_done: "\<not> i < n \<Longrightarrow> decode_loop val n i xs ys = Some (xs, ys)"
  by (simp add: decode_loop.simps)

lemma decode_loop_step:
  assumes "i < n" "0 \<le> i" "n \<le> int (length xs)" "n \<le> int (length ys)" "n * 4 \<le> int (length val)"
  shows "decode_loop val n i xs ys =
     decode_loop val n (i + 1)
       (xs[nat i := unpack_coord (val ! nat (i * 2 + 1)) (val ! nat (i * 2))])
       (ys[nat i := unpack_coord (val ! nat (n * 2 + i * 2 + 1)) (val ! nat (n * 2 + i * 2))])"
proof -
  from assms have "rd val (i * 2 + 1) = Some (val ! nat (i * 2 + 1))"
    "rd val (i * 2) = Some (val ! nat (i * 2))"
    "rd val (n * 2 + i * 2 + 1) = Some (val ! nat (n * 2 + i * 2 + 1))"
    "rd val (n * 2 + i * 2) = Some (val ! nat (n * 2 + i * 2))"
    by (simp_all add: rd_in_range)
  moreover from assms have "\<And>v. wr xs i v = Some (xs[nat i := v])" "\<And>v. wr ys i v = Some (ys[nat i := v])"
    by (simp_all add: wr_in_range)
  ultimately show ?thesis using assms(1)
    by (subst decode_loop.simps) simp
qed

lemma decode_loop_spec:
  "0 \<le> i \<Longrightarrow> n \<le> int (length xs) \<Longrightarrow> n \<le> int (length ys) \<Longrightarrow> n * 4 \<le> int (length val) \<Longrightarrow>
   \<exists>xs' ys'. decode_loop val n i xs ys = Some (xs', ys') \<and>
     length xs' = length xs \<and> length ys' = length ys \<and>
     (\<forall>j<length xs. xs' ! j =
        (if i \<le> int j \<and> int j < n
         then unpack_coord (val ! nat (int j * 2 + 1)) (val ! nat (int j * 2)) else xs ! j)) \<and>
     (\<forall>j<length ys. ys' ! j =
        (if i \<le> int j \<and> int j < n
         then unpack_coord (val ! nat (n * 2 + int j * 2 + 1)) (val ! nat (n * 2 + int j * 2))
         else ys ! j))"
proof (induction "nat (n - i)" arbitrary: i xs ys)
  case 0
  then have "\<not> i < n" by simp
  then show ?case by (auto simp: decode_loop_done)
next
  case (Suc k)
  then have lt: "i < n" by simp
  let ?xs = "xs[nat i := unpack_coord (val ! nat (i * 2 + 1)) (val ! nat (i * 2))]"
  let ?ys = "ys[nat i := unpack_coord (val ! nat (n * 2 + i * 2 + 1)) (val ! nat (n * 2 + i * 2))]"
  from lt Suc.prems have step: "decode_loop val n i xs ys = decode_loop val n (i + 1) ?xs ?ys"
    by (intro decode_loop_step) auto
  from Suc.hyps(2) have k: "k = nat (n - (i + 1))" by simp
  from Suc.hyps(1)[OF k, of ?xs ?ys] Suc.prems
  obtain xs' ys' where r: "decode_loop val n (i + 1) ?xs ?ys = Some (xs', ys')"
      "length xs' = length xs" "length ys' = length ys"
    and vx: "\<forall>j<length xs. xs' ! j =
        (if i + 1 \<le> int j \<and> int j < n
         then unpack_coord (val ! nat (int j * 2 + 1)) (val ! nat (int j * 2)) else ?xs ! j)"
    and vy: "\<forall>j<length ys. ys' ! j =
        (if i + 1 \<le> int j \<and> int j < n
         then unpack_coord (val ! nat (n * 2 + int j * 2 + 1)) (val ! nat (n * 2 + int j * 2))
         else ?ys ! j)"
    by auto
  have ii: "int (nat i) = i" using Suc.prems by simp
  have x: "\<forall>j<length xs. xs' ! j =
        (if i \<le> int j \<and> int j < n
         then unpack_coord (val ! nat (int j * 2 + 1)) (val ! nat (int j * 2)) else xs ! j)"
  proof (intro allI impI)
    fix j assume j: "j < length xs"
    show "xs' ! j = (if i \<le> int j \<and> int j < n
         then unpack_coord (val ! nat (int j * 2 + 1)) (val ! nat (int j * 2)) else xs ! j)"
    proof (cases "j = nat i")
      case True
      with vx j lt ii show ?thesis by simp
    next
      case False
      with vx j Suc.prems show ?thesis by (auto simp: nth_list_update)
    qed
  qed
  have y: "\<forall>j<length ys. ys' ! j =
        (if i \<le> int j \<and> int j < n
         then unpack_coord (val ! nat (n * 2 + int j * 2 + 1)) (val ! nat (n * 2 + int j * 2))
         else ys ! j)"
  proof (intro allI impI)
    fix j assume j: "j < length ys"
    show "ys' ! j = (if i \<le> int j \<and> int j < n
         then unpack_coord (val ! nat (n * 2 + int j * 2 + 1)) (val ! nat (n * 2 + int j * 2))
         else ys ! j)"
    proof (cases "j = nat i")
      case True
      with vy j lt ii show ?thesis by simp
    next
      case False
      with vy j Suc.prems show ?thesis by (auto simp: nth_list_update)
    qed
  qed
  from step r x y show ?case by simp
qed

text \<open>
  Conversely, a decoding loop that returns a result has kept every index inside the
  arrays: \<open>n\<close> entries of each coordinate array and \<open>4 * n\<close> bytes of the buffer.
\<close>

lemma decode_loop_iteration:
  assumes "decode_loop val n i xs ys = Some r" and "i < n" and "0 \<le> i"
  shows "i < int (length xs) \<and> i < int (length ys) \<and> n * 2 + i * 2 + 1 < int (length val) \<and>
     (\<exists>xs' ys'. length xs' = length xs \<and> length ys' = length ys \<and>
        decode_loop val n (i + 1) xs' ys' = Some r)"
proof -
  let ?xs = "xs[nat i := unpack_coord (val ! nat (i * 2 + 1)) (val ! nat (i * 2))]"
  let ?ys = "ys[nat i := unpack_coord (val ! nat (n * 2 + i * 2 + 1)) (val ! nat (n * 2 + i * 2))]"
  from assms have "i < int (length xs) \<and> i < int (length ys) \<and>
      n * 2 + i * 2 + 1 < int (length val) \<and> decode_loop val n (i + 1) ?xs ?ys = Some r"
    by (subst (asm) decode_loop.simps)
       (auto simp: rd_def wr_def split: if_splits bind_splits)
  moreover have "length ?xs = length xs" "length ?ys = length ys" by simp_all
  ultimately show ?thesis by blast
qed

lemma decode_loop_in_bounds:
  "decode_loop val n i xs ys = Some r \<Longrightarrow> 0 \<le> i \<Longrightarrow> i < n \<Longrightarrow>
   n \<le> int (length xs) \<and> n \<le> int (length ys) \<and> n * 4 \<le> int (length val)"
proof (induction "nat (n - i)" arbitrary: i xs ys)
  case 0
  then show ?case by simp
next
  case (Suc k)
  from decode_loop_iteration[OF Suc.prems(1) Suc.prems(3) Suc.prems(2)]
  obtain xs' ys' where b: "i < int (length xs)" "i < int (length ys)"
      "n * 2 + i * 2 + 1 < int (length val)"
    and l: "length xs' = length xs" "length ys' = length ys"
    and d: "decode_loop val n (i + 1) xs' ys' = Some r"
    by blast
  show ?case
  proof (cases "i + 1 < n")
    case True
    from Suc.hyps(2) have "k = nat (n - (i + 1))" by simp
    from Suc.hyps(1)[OF this d] True Suc.prems(2) l show ?thesis by simp
  next
    case False
    with Suc.prems(3) have "n = i + 1" by simp
    with b show ?thesis by simp
  qed
qed

lemma readGestureCoords_gesture:
  fixes c e event s
  defines "n \<equiv> min (uint (event ! 5)) (int (GESTURE_MAX_COORDS_PAIRS_REPORT c))"
    and "address \<equiv> push_bit 8 (uint (event ! 4)) OR uint (event ! 3)"
  defines "s3 \<equiv> s\<lparr>gesture_coords_reported := n,
                    calls := calls s @ [Call_fts_writeReadU8UX address (n * 2 * 2)]\<rparr>"
    and "r \<equiv> fts_writeReadU8UX e (calls s) address (n * 2 * 2)"
  assumes len: "6 \<le> length event"
    and hdr: "uint (event ! 0) = EVT_ID_USER_REPORT c" "uint (event ! 1) = EVT_TYPE_USER_GESTURE c"
  shows "readGestureCoords c e event s =
     (if fst r < OK c then Some (fst r, s3\<lparr>gesture_coords_reported := ERROR_OP_NOT_ALLOW c\<rparr>)
      else do {
        (xs, ys) \<leftarrow> decode_loop (map (snd r) [0..<nat (n * 2 * 2)]) n 0
                       (gesture_coordinates_x s) (gesture_coordinates_y s);
        Some (OK c, s3\<lparr>gesture_coordinates_x := xs, gesture_coordinates_y := ys\<rparr>)
      })"
proof -
  have n0: "0 \<le> n" and nmax: "n \<le> int (GESTURE_MAX_COORDS_PAIRS_REPORT c)"
    by (simp_all add: n_def)
  then have rng: "0 \<le> n * 2 * 2 \<and> n * 2 * 2 \<le> int (GESTURE_MAX_COORDS_PAIRS_REPORT c * 4)"
    by simp
  obtain res bytes where rb: "fts_writeReadU8UX e (calls s) address (n * 2 * 2) = (res, bytes)"
    by (cases "fts_writeReadU8UX e (calls s) address (n * 2 * 2)")
  show ?thesis
  proof (cases "uint (event ! 5) > int (GESTURE_MAX_COORDS_PAIRS_REPORT c)")
    case True
    then have "n = int (GESTURE_MAX_COORDS_PAIRS_REPORT c)" by (simp add: n_def)
    with True rd_event[OF len] hdr rng rb show ?thesis
      by (simp add: readGestureCoords_def call_fts_writeReadU8UX_def r_def s3_def address_def)
  next
    case False
    then have "n = uint (event ! 5)" by (simp add: n_def)
    with False rd_event[OF len] hdr rng rb show ?thesis
      by (simp add: readGestureCoords_def call_fts_writeReadU8UX_def r_def s3_def address_def)
  qed
qed

lemma readGestureCoords_decoded:
  fixes c e event s
  defines "n \<equiv> min (uint (event ! 5)) (int (GESTURE_MAX_COORDS_PAIRS_REPORT c))"
    and "address \<equiv> push_bit 8 (uint (event ! 4)) OR uint (event ! 3)"
  defines "r \<equiv> fts_writeReadU8UX e (calls s) address (n * 2 * 2)"
  assumes wf: "wf_state c s" and len: "6 \<le> length event"
    and hdr: "uint (event ! 0) = EVT_ID_USER_REPORT c" "uint (event ! 1) = EVT_TYPE_USER_GESTURE c"
    and ok: "\<not> fst r < OK c"
  shows "\<exists>s'. readGestureCoords c e event s = Some (OK c, s') \<and>
     gesture_coords_reported s' = n \<and>
     calls s' = calls s @ [Call_fts_writeReadU8UX address (n * 2 * 2)] \<and>
     gesture_mask s' = gesture_mask s \<and> refreshGestureMask s' = refreshGestureMask s \<and>
     length (gesture_coordinates_x s') = GESTURE_MAX_COORDS_PAIRS_REPORT c \<and>
     length (gesture_coordinates_y s') = GESTURE_MAX_COORDS_PAIRS_REPORT c \<and>
     (\<forall>j<GESTURE_MAX_COORDS_PAIRS_REPORT c. gesture_coordinates_x s' ! j =
        (if int j < n then unpack_coord (snd r (2 * j + 1)) (snd r (2 * j))
         else gesture_coordinates_x s ! j)) \<and>
     (\<forall>j<GESTURE_MAX_COORDS_PAIRS_REPORT c. gesture_coordinates_y s' ! j =
        (if int j < n then unpack_coord (snd r (nat n * 2 + 2 * j + 1)) (snd r (nat n * 2 + 2 * j))
         else gesture_coordinates_y s ! j))"
proof -
  let ?val = "map (snd r) [0..<nat (n * 2 * 2)]"
  let ?X = "gesture_coordinates_x s" and ?Y = "gesture_coordinates_y s"
  let ?s3 = "s\<lparr>gesture_coords_reported := n,
                calls := calls s @ [Call_fts_writeReadU8UX address (n * 2 * 2)]\<rparr>"
  have n0: "0 \<le> n" and nmax: "n \<le> int (GESTURE_MAX_COORDS_PAIRS_REPORT c)"
    by (simp_all add: n_def)
  from wf have lx: "length ?X = GESTURE_MAX_COORDS_PAIRS_REPORT c"
    and ly: "length ?Y = GESTURE_MAX_COORDS_PAIRS_REPORT c"
    by (simp_all add: wf_state_def)
  have lv: "n * 4 \<le> int (length ?val)" using n0 by simp
  from decode_loop_spec[of 0 n ?X ?Y ?val] nmax lx ly lv
  obtain xs' ys' where d: "decode_loop ?val n 0 ?X ?Y = Some (xs', ys')"
      and lxs: "length xs' = length ?X" and lys: "length ys' = length ?Y"
    and vx: "\<forall>j<length ?X. xs' ! j =
        (if 0 \<le> int j \<and> int j < n
         then unpack_coord (?val ! nat (int j * 2 + 1)) (?val ! nat (int j * 2)) else ?X ! j)"
    and vy: "\<forall>j<length ?Y. ys' ! j =
        (if 0 \<le> int j \<and> int j < n
         then unpack_coord (?val ! nat (n * 2 + int j * 2 + 1)) (?val ! nat (n * 2 + int j * 2))
         else ?Y ! j)"
    by auto
  have byte: "?val ! k = snd r k" if "k < nat (n * 2 * 2)" for k
    using that by simp
  have ix: "nat (int j * 2 + 1) = 2 * j + 1" "nat (int j * 2) = 2 * j" for j
    by simp_all
  have iy: "nat (n * 2 + int j * 2 + 1) = nat n * 2 + 2 * j + 1"
    "nat (n * 2 + int j * 2) = nat n * 2 + 2 * j" for j
    using n0 by simp_all
  let ?s' = "?s3\<lparr>gesture_coordinates_x := xs', gesture_coordinates_y := ys'\<rparr>"
  have run: "readGestureCoords c e event s = Some (OK c, ?s')"
    using readGestureCoords_gesture[OF len hdr, of e s] ok d
    by (simp add: r_def address_def n_def)
  have x: "\<forall>j<GESTURE_MAX_COORDS_PAIRS_REPORT c. xs' ! j =
        (if int j < n then unpack_coord (snd r (2 * j + 1)) (snd r (2 * j)) else ?X ! j)"
  proof (intro allI impI)
    fix j assume j: "j < GESTURE_MAX_COORDS_PAIRS_REPORT c"
    show "xs' ! j = (if int j < n then unpack_coord (snd r (2 * j + 1)) (snd r (2 * j)) else ?X ! j)"
    proof (cases "int j < n")
      case True
      then have "2 * j + 1 < nat (n * 2 * 2)" "2 * j < nat (n * 2 * 2)" by simp_all
      then have "?val ! (2 * j + 1) = snd r (2 * j + 1)" "?val ! (2 * j) = snd r (2 * j)"
        by (simp_all only: byte)
      with vx j lx True show ?thesis by (simp only: ix) simp
    next
      case False
      with vx j lx show ?thesis by simp
    qed
  qed
  have y: "\<forall>j<GESTURE_MAX_COORDS_PAIRS_REPORT c. ys' ! j =
        (if int j < n then unpack_coord (snd r (nat n * 2 + 2 * j + 1)) (snd r (nat n * 2 + 2 * j))
         else ?Y ! j)"
  proof (intro allI impI)
    fix j assume j: "j < GESTURE_MAX_COORDS_PAIRS_REPORT c"
    show "ys' ! j = (if int j < n
        then unpack_coord (snd r (nat n * 2 + 2 * j + 1)) (snd r (nat n * 2 + 2 * j)) else ?Y ! j)"
    proof (cases "int j < n")
      case True
      then have "nat n * 2 + 2 * j + 1 < nat (n * 2 * 2)" "nat n * 2 + 2 * j < nat (n * 2 * 2)"
        by simp_all
      then have "?val ! (nat n * 2 + 2 * j + 1) = snd r (nat n * 2 + 2 * j + 1)"
        "?val ! (nat n * 2 + 2 * j) = snd r (nat n * 2 + 2 * j)"
        by (simp_all only: byte)
      with vy j ly True show ?thesis by (simp only: iy) simp
    next
      case False
      with vy j ly show ?thesis by simp
    qed
  qed
  have sel: "gesture_coordinates_x ?s' = xs'" "gesture_coordinates_y ?s' = ys'"
    "gesture_coords_reported ?s' = n"
    "calls ?s' = calls s @ [Call_fts_writeReadU8UX address (n * 2 * 2)]"
    "gesture_mask ?s' = gesture_mask s" "refreshGestureMask ?s' = refreshGestureMask s"
    by simp_all
  from lxs lx lys ly have lxs': "length xs' = GESTURE_MAX_COORDS_PAIRS_REPORT c"
    and lys': "length ys' = GESTURE_MAX_COORDS_PAIRS_REPORT c"
    by simp_all
  show ?thesis
    apply (rule exI[of _ ?s'])
    unfolding sel
    by (intro conjI refl run lxs' lys' x y)
qed

lemma unpack_coord_unat: "unat (unpack_coord hi lo) = unat lo + 256 * (unat hi mod 16)"
proof -
  have m8: "(0xFF::u16) = mask 8" and m4: "(0x0F::u16) = mask 4"
    by (simp_all add: mask_eq_exp_minus_1)
  have lo: "(ucast lo :: u16) AND 0xFF = ucast lo"
    unfolding m8 by (rule bit_eqI) (auto simp: bit_simps dest: bit_imp_le_length)
  have hi: "(ucast hi :: u16) AND 0x0F = take_bit 4 (ucast hi)"
    unfolding m4 by (simp add: take_bit_eq_mask)
  have disj: "push_bit 8 (take_bit 4 (ucast hi :: u16)) AND ucast lo = 0"
    by (rule bit_eqI) (auto simp: bit_simps dest: bit_imp_le_length)
  have eq: "unpack_coord hi lo = push_bit 8 (take_bit 4 (ucast hi :: u16)) + ucast lo"
    by (simp add: unpack_coord_def lo hi disjunctive_add_eq_or [OF disj])
  have lo256: "unat lo < 256"
    using unsigned_less [of lo, where 'a = nat] by simp
  have ulo: "unat (ucast lo :: u16) = unat lo"
    using lo256 by (simp add: unsigned_ucast_eq take_bit_nat_eq_self_iff)
  have uhi: "unat (push_bit 8 (take_bit 4 (ucast hi :: u16))) = 256 * (unat hi mod 16)"
  proof -
    have "unat hi < 256"
      using unsigned_less [of hi, where 'a = nat] by simp
    then have "unat (take_bit 4 (ucast hi :: u16)) = unat hi mod 16"
      by (simp only: unsigned_take_bit_eq unsigned_ucast_eq) (simp add: take_bit_eq_mod)
    moreover have "unat hi mod 16 < 16" by simp
    ultimately show ?thesis
      by (simp only: unsigned_push_bit_eq) (simp add: push_bit_eq_mult take_bit_eq_mod)
  qed
  have "unat hi mod 16 < 16" by simp
  with lo256 have "(256 * (unat hi mod 16) + unat lo) mod 65536 = 256 * (unat hi mod 16) + unat lo"
    by simp
  then show ?thesis
    by (simp add: eq unat_word_ariths ulo uhi)
qed

lemma unpack_coord_example: "unpack_coord 0x01 0x34 = 0x134"
  by (simp add: unpack_coord_def)

lemma decode_sample:
  "readGestureCoords sample_config sample_env gesture_event (init_state sample_config)
     = Some (OK sample_config, decoded_state)"
  by (simp add: readGestureCoords_def call_fts_writeReadU8UX_def rd_def wr_def gesture_event_def
      sample_env_def sample_config_def init_state_def decoded_state_def sample_payload_def
      decode_loop.simps unpack_coord_def upt_rec)

text \<open>
  Claim C1 as stated fails. From the initial state the gesture event is decoded and the
  count becomes 2; the next event is a user report that is not a gesture, and
  \<^verbatim>\<open>readGestureCoords\<close> returns \<^verbatim>\<open>ERROR_OP_NOT_ALLOW\<close> with the state untouched: the
  count is still 2, not the sentinel.
\<close>

theorem readGestureCoords_mismatch_keeps_stale_count:
  "readGestureCoords sample_config sample_env gesture_event (init_state sample_config)
     = Some (OK sample_config, decoded_state) \<and>
   readGestureCoords sample_config sample_env other_event decoded_state
     = Some (ERROR_OP_NOT_ALLOW sample_config, decoded_state) \<and>
   gesture_coords_reported decoded_state = 2 \<and>
   gesture_coords_reported decoded_state \<noteq> ERROR_OP_NOT_ALLOW sample_config"
proof -
  have "readGestureCoords sample_config sample_env other_event decoded_state
     = Some (ERROR_OP_NOT_ALLOW sample_config, decoded_state)"
    by (rule header_mismatch_returns) (simp_all add: other_event_def sample_config_def)
  moreover have "gesture_coords_reported decoded_state = 2"
    "gesture_coords_reported decoded_state \<noteq> ERROR_OP_NOT_ALLOW sample_config"
    by (simp_all add: decoded_state_def sample_config_def)
  ultimately show ?thesis using decode_sample by simp
qed

text \<open>
  Claim C1, amended. For an event of six bytes or more whose byte 0 is not
  \<^verbatim>\<open>EVT_ID_USER_REPORT\<close> or whose byte 1 is not \<^verbatim>\<open>EVT_TYPE_USER_GESTURE\<close>,
  \<^verbatim>\<open>readGestureCoords\<close> returns \<^verbatim>\<open>ERROR_OP_NOT_ALLOW\<close> and leaves the whole state as
  it was, no collaborator being called: the reported count keeps its value, so it is the
  sentinel afterwards exactly when it was the sentinel before.
\<close>

theorem readGestureCoords_mismatch_state_unchanged:
  assumes "6 \<le> length event"
    and "uint (event ! 0) \<noteq> EVT_ID_USER_REPORT c \<or> uint (event ! 1) \<noteq> EVT_TYPE_USER_GESTURE c"
  shows "\<exists>s'. readGestureCoords c e event s = Some (ERROR_OP_NOT_ALLOW c, s') \<and> s' = s \<and>
     gesture_coords_reported s' = gesture_coords_reported s \<and>
     (gesture_coords_reported s' = ERROR_OP_NOT_ALLOW c
        \<longleftrightarrow> gesture_coords_reported s = ERROR_OP_NOT_ALLOW c)"
  using header_mismatch_returns[OF assms] by simp

text \<open>
  The hypotheses of the amended C1 hold for the user report that is not a gesture; in the
  initial state the count is the sentinel and stays so.
\<close>

theorem readGestureCoords_mismatch_state_unchanged_witness:
  "6 \<le> length other_event \<and>
   uint (other_event ! 0) = EVT_ID_USER_REPORT sample_config \<and>
   uint (other_event ! 1) \<noteq> EVT_TYPE_USER_GESTURE sample_config \<and>
   (\<exists>s'. readGestureCoords sample_config sample_env other_event (init_state sample_config)
            = Some (ERROR_OP_NOT_ALLOW sample_config, s') \<and>
      gesture_coords_reported s' = ERROR_OP_NOT_ALLOW sample_config)"
proof -
  have h: "6 \<le> length other_event"
    "uint (other_event ! 0) \<noteq> EVT_ID_USER_REPORT sample_config \<or>
     uint (other_event ! 1) \<noteq> EVT_TYPE_USER_GESTURE sample_config"
    by (simp_all add: other_event_def sample_config_def)
  have "gesture_coords_reported (init_state sample_config) = ERROR_OP_NOT_ALLOW sample_config"
    by (simp add: init_state_def)
  moreover have "uint (other_event ! 0) = EVT_ID_USER_REPORT sample_config"
    "uint (other_event ! 1) \<noteq> EVT_TYPE_USER_GESTURE sample_config"
    by (simp_all add: other_event_def sample_config_def)
  ultimately show ?thesis
    using readGestureCoords_mismatch_state_unchanged[OF h, of sample_env "init_state sample_config"] h
    by auto
qed

text \<open>
  Claim C4. For a gesture event whose byte 5 exceeds
  \<^verbatim>\<open>GESTURE_MAX_COORDS_PAIRS_REPORT\<close>, \<^verbatim>\<open>readGestureCoords\<close> returns a result, which
  in this model means that no access left the coordinate arrays or the written part of the
  local buffer, itself within the buffer's capacity. The one collaborator call is a
  framebuffer read of \<^verbatim>\<open>GESTURE_MAX_COORDS_PAIRS_REPORT * 2 * 2\<close> bytes: the count was
  clamped before the read. If the read succeeds \<^verbatim>\<open>OK\<close> is returned and the count is
  \<^verbatim>\<open>GESTURE_MAX_COORDS_PAIRS_REPORT\<close>; if it fails its code is returned and the count
  is the sentinel. The coordinate arrays keep their length.
\<close>

theorem readGestureCoords_over_report_clamped:
  fixes c e event s
  defines "address \<equiv> push_bit 8 (uint (event ! 4)) OR uint (event ! 3)"
  defines "r \<equiv> fts_writeReadU8UX e (calls s) address
                   (int (GESTURE_MAX_COORDS_PAIRS_REPORT c) * 2 * 2)"
  assumes wf: "wf_state c s" and len: "6 \<le> length event"
    and hdr: "uint (event ! 0) = EVT_ID_USER_REPORT c" "uint (event ! 1) = EVT_TYPE_USER_GESTURE c"
    and over: "int (GESTURE_MAX_COORDS_PAIRS_REPORT c) < uint (event ! 5)"
  shows "\<exists>res s'. readGestureCoords c e event s = Some (res, s') \<and>
     calls s' = calls s @
        [Call_fts_writeReadU8UX address (int (GESTURE_MAX_COORDS_PAIRS_REPORT c) * 2 * 2)] \<and>
     length (gesture_coordinates_x s') = GESTURE_MAX_COORDS_PAIRS_REPORT c \<and>
     length (gesture_coordinates_y s') = GESTURE_MAX_COORDS_PAIRS_REPORT c \<and>
     (if fst r < OK c
      then res = fst r \<and> gesture_coords_reported s' = ERROR_OP_NOT_ALLOW c
      else res = OK c \<and> gesture_coords_reported s' = int (GESTURE_MAX_COORDS_PAIRS_REPORT c))"
proof -
  from over have n: "min (uint (event ! 5)) (int (GESTURE_MAX_COORDS_PAIRS_REPORT c))
      = int (GESTURE_MAX_COORDS_PAIRS_REPORT c)"
    by simp
  show ?thesis
  proof (cases "fst r < OK c")
    case True
    with readGestureCoords_gesture[OF len hdr, of e s] wf show ?thesis
      by (simp add: n r_def address_def wf_state_def)
  next
    case False
    with readGestureCoords_decoded[OF wf len hdr, of e] show ?thesis
      unfolding n r_def address_def by auto
  qed
qed

text \<open>
  The hypotheses of C4 hold for the event that reports 105 pairs, with room for 100.
\<close>

theorem readGestureCoords_over_report_clamped_witness:
  "wf_state sample_config sample_state \<and> 6 \<le> length over_event \<and>
   uint (over_event ! 0) = EVT_ID_USER_REPORT sample_config \<and>
   uint (over_event ! 1) = EVT_TYPE_USER_GESTURE sample_config \<and>
   int (GESTURE_MAX_COORDS_PAIRS_REPORT sample_config) < uint (over_event ! 5) \<and>
   (\<exists>res s'. readGestureCoords sample_config sample_env over_event sample_state = Some (res, s') \<and>
      calls s' = calls sample_state @ [Call_fts_writeReadU8UX 0x2010 400] \<and>
      length (gesture_coordinates_x s') = 100 \<and> length (gesture_coordinates_y s') = 100 \<and>
      res = OK sample_config \<and> gesture_coords_reported s' = 100)"
proof -
  have h: "wf_state sample_config sample_state" "6 \<le> length over_event"
    "uint (over_event ! 0) = EVT_ID_USER_REPORT sample_config"
    "uint (over_event ! 1) = EVT_TYPE_USER_GESTURE sample_config"
    "int (GESTURE_MAX_COORDS_PAIRS_REPORT sample_config) < uint (over_event ! 5)"
    by (simp_all add: wf_state_def sample_state_def init_state_def sample_config_def over_event_def)
  have a: "push_bit 8 (uint (over_event ! 4)) OR uint (over_event ! 3) = 0x2010"
    by (simp add: over_event_def)
  have ok: "\<not> fst (fts_writeReadU8UX sample_env (calls sample_state) 0x2010
                (int (GESTURE_MAX_COORDS_PAIRS_REPORT sample_config) * 2 * 2)) < OK sample_config"
    by (simp add: sample_env_def sample_config_def)
  have m: "GESTURE_MAX_COORDS_PAIRS_REPORT sample_config = 100"
    by (simp add: sample_config_def)
  from readGestureCoords_over_report_clamped[OF h, of sample_env] ok h show ?thesis
    unfolding a by (simp add: m)
qed

text \<open>
  Claim C5. After a successful decode of \<open>n\<close> pairs, for every \<open>i < n\<close> the X
  coordinate \<open>i\<close> is the 12-bit number whose low eight bits are payload byte \<open>2i\<close> and
  whose high four bits are the low nibble of payload byte \<open>2i + 1\<close>, and the Y coordinate
  \<open>i\<close> is formed in the same way from the payload bytes \<open>2n + 2i\<close> and
  \<open>2n + 2i + 1\<close>. The payload is whatever the framebuffer read delivers. In particular
  the bytes \<open>0x34, 0x01\<close> at an X slot decode to \<open>0x134\<close>.
\<close>

theorem readGestureCoords_unpacks_12_bit:
  fixes c e event s
  defines "n \<equiv> min (uint (event ! 5)) (int (GESTURE_MAX_COORDS_PAIRS_REPORT c))"
    and "address \<equiv> push_bit 8 (uint (event ! 4)) OR uint (event ! 3)"
  defines "payload \<equiv> snd (fts_writeReadU8UX e (calls s) address (n * 2 * 2))"
  assumes wf: "wf_state c s" and len: "6 \<le> length event"
    and hdr: "uint (event ! 0) = EVT_ID_USER_REPORT c" "uint (event ! 1) = EVT_TYPE_USER_GESTURE c"
    and ok: "\<not> fst (fts_writeReadU8UX e (calls s) address (n * 2 * 2)) < OK c"
  shows "\<exists>s'. readGestureCoords c e event s = Some (OK c, s') \<and>
     gesture_coords_reported s' = n \<and>
     (\<forall>i. int i < n \<longrightarrow>
        unat (gesture_coordinates_x s' ! i)
          = unat (payload (2 * i)) + 256 * (unat (payload (2 * i + 1)) mod 16) \<and>
        unat (gesture_coordinates_y s' ! i)
          = unat (payload (nat n * 2 + 2 * i)) + 256 * (unat (payload (nat n * 2 + 2 * i + 1)) mod 16) \<and>
        (payload (2 * i) = 0x34 \<and> payload (2 * i + 1) = 0x01
           \<longrightarrow> gesture_coordinates_x s' ! i = 0x134))"
proof -
  have nmax: "n \<le> int (GESTURE_MAX_COORDS_PAIRS_REPORT c)" by (simp add: n_def)
  from readGestureCoords_decoded[OF wf len hdr, of e] ok
  obtain s' where run: "readGestureCoords c e event s = Some (OK c, s')"
    and cnt: "gesture_coords_reported s' = n"
    and x: "\<forall>j<GESTURE_MAX_COORDS_PAIRS_REPORT c. gesture_coordinates_x s' ! j =
        (if int j < n then unpack_coord (payload (2 * j + 1)) (payload (2 * j))
         else gesture_coordinates_x s ! j)"
    and y: "\<forall>j<GESTURE_MAX_COORDS_PAIRS_REPORT c. gesture_coordinates_y s' ! j =
        (if int j < n then unpack_coord (payload (nat n * 2 + 2 * j + 1)) (payload (nat n * 2 + 2 * j))
         else gesture_coordinates_y s ! j)"
    unfolding n_def address_def payload_def by blast
  have "unat (gesture_coordinates_x s' ! i)
          = unat (payload (2 * i)) + 256 * (unat (payload (2 * i + 1)) mod 16) \<and>
        unat (gesture_coordinates_y s' ! i)
          = unat (payload (nat n * 2 + 2 * i)) + 256 * (unat (payload (nat n * 2 + 2 * i + 1)) mod 16) \<and>
        (payload (2 * i) = 0x34 \<and> payload (2 * i + 1) = 0x01
           \<longrightarrow> gesture_coordinates_x s' ! i = 0x134)" if i: "int i < n" for i
  proof -
    from i nmax have "i < GESTURE_MAX_COORDS_PAIRS_REPORT c" by simp
    with x y i have
      "gesture_coordinates_x s' ! i = unpack_coord (payload (2 * i + 1)) (payload (2 * i))"
      "gesture_coordinates_y s' ! i
         = unpack_coord (payload (nat n * 2 + 2 * i + 1)) (payload (nat n * 2 + 2 * i))"
      by simp_all
    then show ?thesis
      by (simp add: unpack_coord_unat unpack_coord_example)
  qed
  with run cnt show ?thesis by blast
qed

text \<open>
  The hypotheses of C5 hold for the gesture event in the initial state; the four
  coordinates decoded from the sample framebuffer are as expected.
\<close>

theorem readGestureCoords_unpacks_12_bit_witness:
  "wf_state sample_config (init_state sample_config) \<and> 6 \<le> length gesture_event \<and>
   uint (gesture_event ! 0) = EVT_ID_USER_REPORT sample_config \<and>
   uint (gesture_event ! 1) = EVT_TYPE_USER_GESTURE sample_config \<and>
   \<not> fst (fts_writeReadU8UX sample_env (calls (init_state sample_config)) 0x2010 8)
       < OK sample_config \<and>
   (\<exists>s'. readGestureCoords sample_config sample_env gesture_event (init_state sample_config)
            = Some (OK sample_config, s') \<and>
      gesture_coords_reported s' = 2 \<and>
      gesture_coordinates_x s' ! 0 = 0x134 \<and>
      unat (gesture_coordinates_x s' ! 1) = 0xFF + 256 * 0xF \<and>
      unat (gesture_coordinates_y s' ! 0) = 0x78 + 256 * 0x6 \<and>
      unat (gesture_coordinates_y s' ! 1) = 0)"
proof -
  have n: "min (uint (gesture_event ! 5)) (int (GESTURE_MAX_COORDS_PAIRS_REPORT sample_config)) = 2"
    and a: "push_bit 8 (uint (gesture_event ! 4)) OR uint (gesture_event ! 3) = 0x2010"
    by (simp_all add: gesture_event_def sample_config_def)
  have h: "wf_state sample_config (init_state sample_config)" "6 \<le> length gesture_event"
    "uint (gesture_event ! 0) = EVT_ID_USER_REPORT sample_config"
    "uint (gesture_event ! 1) = EVT_TYPE_USER_GESTURE sample_config"
    by (simp_all add: wf_state_def init_state_def sample_config_def gesture_event_def)
  have ok: "\<not> fst (fts_writeReadU8UX sample_env (calls (init_state sample_config)) 0x2010 8)
       < OK sample_config"
    by (simp add: sample_env_def sample_config_def)
  have ok': "\<not> fst (fts_writeReadU8UX sample_env (calls (init_state sample_config)) 0x2010 (2 * 2 * 2))
       < OK sample_config"
    using ok by simp
  have p: "snd (fts_writeReadU8UX sample_env (calls (init_state sample_config)) 0x2010 (2 * 2 * 2))
      = (\<lambda>k. if k < length sample_payload then sample_payload ! k else 0)"
    by (simp add: sample_env_def)
  from readGestureCoords_unpacks_12_bit[OF h, of sample_env] ok'
  obtain s' where run: "readGestureCoords sample_config sample_env gesture_event (init_state sample_config)
            = Some (OK sample_config, s')"
    and cnt: "gesture_coords_reported s' = 2"
    and v: "\<forall>i. int i < 2 \<longrightarrow>
        unat (gesture_coordinates_x s' ! i)
          = unat (if 2 * i < length sample_payload then sample_payload ! (2 * i) else 0)
            + 256 * (unat (if 2 * i + 1 < length sample_payload then sample_payload ! (2 * i + 1) else 0) mod 16) \<and>
        unat (gesture_coordinates_y s' ! i)
          = unat (if nat 2 * 2 + 2 * i < length sample_payload then sample_payload ! (nat 2 * 2 + 2 * i) else 0)
            + 256 * (unat (if nat 2 * 2 + 2 * i + 1 < length sample_payload
                           then sample_payload ! (nat 2 * 2 + 2 * i + 1) else 0) mod 16) \<and>
        ((if 2 * i < length sample_payload then sample_payload ! (2 * i) else 0) = 0x34 \<and>
         (if 2 * i + 1 < length sample_payload then sample_payload ! (2 * i + 1) else 0) = 0x01
           \<longrightarrow> gesture_coordinates_x s' ! i = 0x134)"
    unfolding n a p by blast
  from v[rule_format, of 0] v[rule_format, of 1]
  have "gesture_coordinates_x s' ! 0 = 0x134 \<and>
      unat (gesture_coordinates_x s' ! 1) = 0xFF + 256 * 0xF \<and>
      unat (gesture_coordinates_y s' ! 0) = 0x78 + 256 * 0x6 \<and>
      unat (gesture_coordinates_y s' ! 1) = 0"
    by (simp add: sample_payload_def)
  with run cnt h ok show ?thesis by blast
qed

section \<open>The refresh flag\<close>















end
